theory Spec2Isabelle
  imports Main "HOL-Library.Word"
begin

unbundle bit_operations_syntax

section \<open>Bit layout (src/index.ts, lines 1-20)\<close>

text \<open>
  The source computes on \<^verbatim>\<open>bigint\<close>, JavaScript's unbounded integers, so every
  value below is an \<^typ>\<open>int\<close>: \<open>push_bit\<close> is \<^verbatim>\<open><<\<close>, \<open>drop_bit\<close> is the
  arithmetic \<^verbatim>\<open>>>\<close> (rounding towards minus infinity), and \<open>AND\<close>, \<open>OR\<close> work on
  the infinite two's complement representation, as the bigint operators do. Nothing
  wraps at 64 bits in the source, and nothing wraps here. Shift amounts are natural
  numbers.
\<close>

definition CUSTOM_EPOCH :: int where
  "CUSTOM_EPOCH = 1609459200000"

definition TIMESTAMP_BITS :: nat where
  "TIMESTAMP_BITS = 41"

definition FLAG_BITS :: nat where
  "FLAG_BITS = 1"

definition MACHINE_ID_BITS :: nat where
  "MACHINE_ID_BITS = 10"

definition SEQUENCE_BITS :: nat where
  "SEQUENCE_BITS = 12"

definition RANDOMNESS_BITS :: nat where
  "RANDOMNESS_BITS = MACHINE_ID_BITS + SEQUENCE_BITS"

definition MACHINE_ID_SHIFT :: nat where
  "MACHINE_ID_SHIFT = SEQUENCE_BITS"

definition FLAG_SHIFT :: nat where
  "FLAG_SHIFT = MACHINE_ID_BITS + SEQUENCE_BITS"

definition TIMESTAMP_SHIFT :: nat where
  "TIMESTAMP_SHIFT = FLAG_SHIFT + FLAG_BITS"

definition MAX_TIMESTAMP :: int where
  "MAX_TIMESTAMP = push_bit TIMESTAMP_BITS 1 - 1"

definition MAX_MACHINE_ID :: int where
  "MAX_MACHINE_ID = push_bit MACHINE_ID_BITS 1 - 1"

definition MAX_SEQUENCE :: int where
  "MAX_SEQUENCE = push_bit SEQUENCE_BITS 1 - 1"

definition MAX_RANDOMNESS :: int where
  "MAX_RANDOMNESS = push_bit RANDOMNESS_BITS 1 - 1"

section \<open>The backend generator (class SnowflakeGenerator, lines 22-75)\<close>

text \<open>
  The three \<^verbatim>\<open>throw new Error(...)\<close> sites of the source, named after what they
  report: the constructor's range check, the clock check of \<^verbatim>\<open>generate\<close>, and the
  41-bit bound shared by both generators.
\<close>

datatype error = InvalidMachineId | ClockRegression | TimestampOverflow

record generator =
  machineId :: int
  lastTimestamp :: int
  sequence :: int

text \<open>The constructor: the fields start at 0, the machine id is checked.\<close>

definition SnowflakeGenerator :: "int \<Rightarrow> error + generator" where
  "SnowflakeGenerator mid =
     (if mid < 0 \<or> mid > MAX_MACHINE_ID then Inl InvalidMachineId
      else Inr \<lparr>machineId = mid, lastTimestamp = 0, sequence = 0\<rparr>)"

text \<open>
  The time source \<^verbatim>\<open>Date.now()\<close> is a sequence of readings \<open>now 0, now 1, ...\<close> in
  milliseconds; the position \<open>n\<close> counts the readings taken so far and is threaded
  through every function that reads the clock.

  \<^verbatim>\<open>waitNextMillis\<close> reads the clock until it shows a millisecond after
  \<open>currentTimestamp\<close>. The loop has no bound in the source; here a wait that never
  ends is the value \<open>None\<close>.
\<close>

partial_function (option) waitNextMillis :: "(nat \<Rightarrow> int) \<Rightarrow> nat \<Rightarrow> int \<Rightarrow> (int \<times> nat) option" where
  "waitNextMillis now n currentTimestamp =
     (let timestamp = now n in
      if timestamp \<le> currentTimestamp then waitNextMillis now (Suc n) currentTimestamp
      else Some (timestamp, Suc n))"

declare waitNextMillis.simps [code]

text \<open>
  \<^verbatim>\<open>generate\<close> returns the thrown error or the id, the generator after the call, and
  the clock position after the call. The assignments to \<^verbatim>\<open>this.sequence\<close> and
  \<^verbatim>\<open>this.lastTimestamp\<close> happen before the overflow check, so the state returned
  with \<open>TimestampOverflow\<close> carries them.
\<close>

definition generate :: "(nat \<Rightarrow> int) \<Rightarrow> nat \<Rightarrow> generator \<Rightarrow> ((error + int) \<times> generator \<times> nat) option" where
  "generate now n g =
     (let timestamp = now n in
      if timestamp < lastTimestamp g then Some (Inl ClockRegression, g, Suc n)
      else
        case (if timestamp = lastTimestamp g then
                (let g1 = g\<lparr>sequence := (sequence g + 1) AND MAX_SEQUENCE\<rparr> in
                 if sequence g1 = 0 then
                   (case waitNextMillis now (Suc n) timestamp of
                      None \<Rightarrow> None
                    | Some (timestamp', n') \<Rightarrow> Some (timestamp', g1, n'))
                 else Some (timestamp, g1, Suc n))
              else Some (timestamp, g\<lparr>sequence := 0\<rparr>, Suc n)) of
          None \<Rightarrow> None
        | Some (timestamp', g1, n') \<Rightarrow>
            (let g2 = g1\<lparr>lastTimestamp := timestamp'\<rparr>;
                 adjustedTimestamp = timestamp' - CUSTOM_EPOCH
             in if adjustedTimestamp > MAX_TIMESTAMP then Some (Inl TimestampOverflow, g2, n')
                else
                  (let flag = 1 in
                   Some (Inr (push_bit TIMESTAMP_SHIFT adjustedTimestamp OR
                              push_bit FLAG_SHIFT flag OR
                              push_bit MACHINE_ID_SHIFT (machineId g2) OR
                              sequence g2), g2, n'))))"

text \<open>
  The id expression of \<^verbatim>\<open>generate\<close> (lines 59-63, with \<^verbatim>\<open>flag\<close> = 1), named so that
  the statements below can mention it.
\<close>

abbreviation backendId :: "int \<Rightarrow> int \<Rightarrow> int \<Rightarrow> int" where
  "backendId adjustedTimestamp mid sequ \<equiv>
     push_bit TIMESTAMP_SHIFT adjustedTimestamp OR push_bit FLAG_SHIFT 1 OR
     push_bit MACHINE_ID_SHIFT mid OR sequ"

section \<open>The frontend generator (generateFrontendSnowflakeId, lines 77-101)\<close>

text \<open>
  The random source fills a \<^verbatim>\<open>Uint8Array(4)\<close>: four bytes.
  \<^verbatim>\<open>DataView.getUint32(0, false)\<close> reads them big-endian, the first byte the most
  significant. The function is stateless: the one reading of the clock and the bytes
  drawn from the random source are its parameters.
\<close>

type_synonym randomBytes = "8 word \<times> 8 word \<times> 8 word \<times> 8 word"

definition getUint32 :: "randomBytes \<Rightarrow> int" where
  "getUint32 bs =
     (case bs of (b0, b1, b2, b3) \<Rightarrow>
        uint b0 * 2 ^ 24 + uint b1 * 2 ^ 16 + uint b2 * 2 ^ 8 + uint b3)"

definition generateFrontendSnowflakeId :: "int \<Rightarrow> randomBytes \<Rightarrow> error + int" where
  "generateFrontendSnowflakeId timestamp randomBytes =
     (let adjustedTimestamp = timestamp - CUSTOM_EPOCH in
      if adjustedTimestamp > MAX_TIMESTAMP then Inl TimestampOverflow
      else
        (let flag = 0;
             randomValue = getUint32 randomBytes;
             randomness = randomValue AND MAX_RANDOMNESS
         in Inr (push_bit TIMESTAMP_SHIFT adjustedTimestamp OR push_bit FLAG_SHIFT flag OR
                 randomness)))"

section \<open>Decoding and validation (lines 103-176)\<close>

text \<open>
  \<^verbatim>\<open>extractIdComponents\<close> returns one of two object shapes, told apart by the
  \<^verbatim>\<open>source\<close> field. The timestamp is kept as the millisecond count handed to
  \<^verbatim>\<open>new Date(Number(timestamp))\<close>: it lies between the epoch and the epoch plus
  \<open>2 ^ 41 - 1\<close>, far below \<open>2 ^ 53\<close>, so the conversion to a number is exact.
\<close>

datatype components =
  Frontend int int
| Backend int int int

fun source :: "components \<Rightarrow> string" where
  "source (Frontend timestamp randomness) = ''frontend''"
| "source (Backend timestamp mid sequ) = ''backend''"

fun timestamp :: "components \<Rightarrow> int" where
  "timestamp (Frontend t randomness) = t"
| "timestamp (Backend t mid sequ) = t"

definition extractIdComponents :: "int \<Rightarrow> components" where
  "extractIdComponents ident =
     (let adjustedTimestamp = drop_bit TIMESTAMP_SHIFT ident AND MAX_TIMESTAMP;
          timestamp = adjustedTimestamp + CUSTOM_EPOCH;
          flag = drop_bit FLAG_SHIFT ident AND 1
      in if flag = 0 then
           (let randomness = ident AND MAX_RANDOMNESS in Frontend timestamp randomness)
         else
           (let mid = drop_bit MACHINE_ID_SHIFT ident AND MAX_MACHINE_ID;
                sequ = ident AND MAX_SEQUENCE
            in Backend timestamp mid sequ))"

text \<open>
  \<^verbatim>\<open>isValidSnowflakeId\<close> reads the clock once (\<open>now\<close>). Its body is wrapped in
  \<^verbatim>\<open>try\<close>/\<^verbatim>\<open>catch\<close>, but it only shifts, masks, adds and compares bigints,
  none of which can throw, so the \<^verbatim>\<open>catch\<close> branch has no counterpart here.
\<close>

definition isValidSnowflakeId :: "int \<Rightarrow> int \<Rightarrow> bool" where
  "isValidSnowflakeId now ident =
     (let adjustedTimestamp = drop_bit TIMESTAMP_SHIFT ident AND MAX_TIMESTAMP;
          timestamp = adjustedTimestamp + CUSTOM_EPOCH;
          flag = drop_bit FLAG_SHIFT ident AND 1
      in if flag \<noteq> 0 \<and> flag \<noteq> 1 then False
         else if timestamp > now then False
         else if flag = 0 then
           (let randomness = ident AND MAX_RANDOMNESS in
            if randomness < 0 \<or> randomness > MAX_RANDOMNESS then False else True)
         else
           (let mid = drop_bit MACHINE_ID_SHIFT ident AND MAX_MACHINE_ID;
                sequ = ident AND MAX_SEQUENCE
            in if mid < 0 \<or> mid > MAX_MACHINE_ID \<or> sequ < 0 \<or> sequ > MAX_SEQUENCE
               then False else True))"

section \<open>Constants evaluated\<close>

lemma shifts_eval:
  "MACHINE_ID_SHIFT = 12" "FLAG_SHIFT = 22" "TIMESTAMP_SHIFT = 23"
  by (simp_all add: MACHINE_ID_SHIFT_def FLAG_SHIFT_def TIMESTAMP_SHIFT_def
      MACHINE_ID_BITS_def SEQUENCE_BITS_def FLAG_BITS_def)

lemma masks_eval:
  "MAX_TIMESTAMP = mask 41" "MAX_MACHINE_ID = mask 10" "MAX_SEQUENCE = mask 12"
  "MAX_RANDOMNESS = mask 22"
  by (simp_all add: MAX_TIMESTAMP_def MAX_MACHINE_ID_def MAX_SEQUENCE_def MAX_RANDOMNESS_def
      TIMESTAMP_BITS_def MACHINE_ID_BITS_def SEQUENCE_BITS_def RANDOMNESS_BITS_def
      mask_eq_exp_minus_1 push_bit_eq_mult)

lemma maxima_eval:
  "MAX_TIMESTAMP = 2199023255551" "MAX_MACHINE_ID = 1023" "MAX_SEQUENCE = 4095"
  "MAX_RANDOMNESS = 4194303"
  by (simp_all add: MAX_TIMESTAMP_def MAX_MACHINE_ID_def MAX_SEQUENCE_def MAX_RANDOMNESS_def
      TIMESTAMP_BITS_def MACHINE_ID_BITS_def SEQUENCE_BITS_def RANDOMNESS_BITS_def
      push_bit_eq_mult)

section \<open>Arithmetic of the bit fields\<close>

lemma drop_bit_small: "0 \<le> (x::int) \<Longrightarrow> x < 2 ^ n \<Longrightarrow> drop_bit n x = 0"
  by (simp add: drop_bit_eq_div)

lemma and_MAX_TIMESTAMP: "x AND MAX_TIMESTAMP = take_bit 41 x"
  unfolding masks_eval by (rule take_bit_eq_mask [symmetric])

lemma and_MAX_MACHINE_ID: "x AND MAX_MACHINE_ID = take_bit 10 x"
  unfolding masks_eval by (rule take_bit_eq_mask [symmetric])

lemma and_MAX_SEQUENCE: "x AND MAX_SEQUENCE = take_bit 12 x"
  unfolding masks_eval by (rule take_bit_eq_mask [symmetric])

lemma and_MAX_RANDOMNESS: "x AND MAX_RANDOMNESS = take_bit 22 x"
  unfolding masks_eval by (rule take_bit_eq_mask [symmetric])

lemmas and_MAX = and_MAX_TIMESTAMP and_MAX_MACHINE_ID and_MAX_SEQUENCE and_MAX_RANDOMNESS

lemma and_one_cases: "(x::int) AND 1 = 0 \<or> x AND 1 = 1"
  by (simp add: and_one_eq) arith

lemma take_bit_12_succ_neq: "take_bit 12 (s + 1) \<noteq> (s::int)"
proof
  assume h: "take_bit 12 (s + 1) = s"
  have "0 \<le> take_bit 12 (s + 1)" "take_bit 12 (s + 1) < 2 ^ 12"
    by (simp, rule take_bit_int_less_exp)
  with h have range: "0 \<le> s" "s < 4096" by simp_all
  show False
  proof (cases "s = 4095")
    case True
    with h show False by simp
  next
    case False
    with range have "0 \<le> s + 1" "s + 1 < 2 ^ 12" by simp_all
    then have "take_bit 12 (s + 1) = s + 1" by (rule take_bit_int_eq_self)
    with h show False by simp
  qed
qed

lemma getUint32_range: "0 \<le> getUint32 bs" "getUint32 bs < 2 ^ 32"
proof -
  obtain b0 b1 b2 b3 where bs: "bs = (b0, b1, b2, b3)" by (cases bs) auto
  have "uint b0 < 256" "uint b1 < 256" "uint b2 < 256" "uint b3 < 256"
    using uint_lt2p [of b0] uint_lt2p [of b1] uint_lt2p [of b2] uint_lt2p [of b3] by simp_all
  moreover have "0 \<le> uint b0" "0 \<le> uint b1" "0 \<le> uint b2" "0 \<le> uint b3" by simp_all
  ultimately show "0 \<le> getUint32 bs" "getUint32 bs < 2 ^ 32"
    by (simp_all add: getUint32_def bs)
qed

lemma backend_sequence_bits:
  assumes "0 \<le> s" "s \<le> MAX_SEQUENCE"
  shows "(push_bit TIMESTAMP_SHIFT a OR push_bit FLAG_SHIFT f OR push_bit MACHINE_ID_SHIFT m OR s)
           AND MAX_SEQUENCE = s"
  using assms unfolding and_MAX
  by (simp add: shifts_eval maxima_eval take_bit_push_bit take_bit_int_eq_self)

lemma backend_machineId_bits:
  assumes "0 \<le> s" "s \<le> MAX_SEQUENCE" "0 \<le> m" "m \<le> MAX_MACHINE_ID"
  shows "drop_bit MACHINE_ID_SHIFT
           (push_bit TIMESTAMP_SHIFT a OR push_bit FLAG_SHIFT f OR push_bit MACHINE_ID_SHIFT m OR s)
           AND MAX_MACHINE_ID = m"
  using assms unfolding and_MAX
  by (simp add: shifts_eval maxima_eval take_bit_push_bit take_bit_int_eq_self
      drop_bit_push_bit_int drop_bit_small)

lemma backend_flag_bit:
  assumes "0 \<le> s" "s \<le> MAX_SEQUENCE" "0 \<le> m" "m \<le> MAX_MACHINE_ID"
  shows "drop_bit FLAG_SHIFT
           (push_bit TIMESTAMP_SHIFT a OR push_bit FLAG_SHIFT 1 OR push_bit MACHINE_ID_SHIFT m OR s)
           AND 1 = 1"
  using assms
  by (simp add: shifts_eval maxima_eval drop_bit_push_bit_int drop_bit_small and_one_eq
      mod_2_eq_odd even_or_iff)

lemma backend_timestamp_bits:
  assumes "0 \<le> s" "s \<le> MAX_SEQUENCE" "0 \<le> m" "m \<le> MAX_MACHINE_ID"
  shows "drop_bit TIMESTAMP_SHIFT
           (push_bit TIMESTAMP_SHIFT a OR push_bit FLAG_SHIFT 1 OR push_bit MACHINE_ID_SHIFT m OR s)
           = a"
  using assms
  by (simp add: shifts_eval maxima_eval drop_bit_push_bit_int drop_bit_small)

lemma frontend_randomness_bits:
  assumes "0 \<le> r" "r \<le> MAX_RANDOMNESS"
  shows "(push_bit TIMESTAMP_SHIFT a OR push_bit FLAG_SHIFT 0 OR r) AND MAX_RANDOMNESS = r"
  using assms unfolding and_MAX
  by (simp add: shifts_eval maxima_eval take_bit_push_bit take_bit_int_eq_self)

lemma frontend_flag_bit:
  assumes "0 \<le> r" "r \<le> MAX_RANDOMNESS"
  shows "drop_bit FLAG_SHIFT (push_bit TIMESTAMP_SHIFT a OR push_bit FLAG_SHIFT 0 OR r) AND 1 = 0"
  using assms
  by (simp add: shifts_eval maxima_eval drop_bit_push_bit_int drop_bit_small and_one_eq
      mod_2_eq_odd even_or_iff)

lemma frontend_timestamp_bits:
  assumes "0 \<le> r" "r \<le> MAX_RANDOMNESS"
  shows "drop_bit TIMESTAMP_SHIFT (push_bit TIMESTAMP_SHIFT a OR push_bit FLAG_SHIFT 0 OR r) = a"
  using assms
  by (simp add: shifts_eval maxima_eval drop_bit_push_bit_int drop_bit_small)

lemma timestamp_mask_id:
  assumes "0 \<le> a" "a \<le> MAX_TIMESTAMP"
  shows "a AND MAX_TIMESTAMP = a"
  using assms unfolding and_MAX by (simp add: maxima_eval take_bit_int_eq_self)

lemma and_MAX_range:
  "0 \<le> x AND MAX_TIMESTAMP" "x AND MAX_TIMESTAMP \<le> MAX_TIMESTAMP"
  "0 \<le> x AND MAX_MACHINE_ID" "x AND MAX_MACHINE_ID \<le> MAX_MACHINE_ID"
  "0 \<le> x AND MAX_SEQUENCE" "x AND MAX_SEQUENCE \<le> MAX_SEQUENCE"
  "0 \<le> x AND MAX_RANDOMNESS" "x AND MAX_RANDOMNESS \<le> MAX_RANDOMNESS"
  using take_bit_int_less_exp [of 41 x] take_bit_int_less_exp [of 10 x]
    take_bit_int_less_exp [of 12 x] take_bit_int_less_exp [of 22 x]
  unfolding and_MAX by (simp_all add: maxima_eval)


section \<open>The wait for the next millisecond\<close>

lemma waitNextMillis_first:
  assumes "n \<le> k" "cur < now k" "\<forall>j. n \<le> j \<and> j < k \<longrightarrow> now j \<le> cur"
  shows "waitNextMillis now n cur = Some (now k, Suc k)"
  using assms
proof (induction "k - n" arbitrary: n)
  case 0
  then have "n = k" by simp
  with "0.prems" show ?case by (subst waitNextMillis.simps) simp
next
  case (Suc d)
  then have lt: "n < k" by simp
  with Suc.prems have le: "now n \<le> cur" by simp
  from Suc.hyps(2) lt have d: "d = k - Suc n" by simp
  have "waitNextMillis now (Suc n) cur = Some (now k, Suc k)"
    using Suc.hyps(1) [OF d] lt Suc.prems by simp
  with le show ?case by (subst waitNextMillis.simps) simp
qed


lemma waitNextMillis_Some:
  assumes "waitNextMillis now n cur = Some (t, n')"
  shows "n < n' \<and> t = now (n' - 1) \<and> cur < t \<and>
         (\<forall>j. n \<le> j \<and> j < n' - 1 \<longrightarrow> now j \<le> cur)"
proof -
  let ?P = "\<lambda>now n cur y. n < snd y \<and> fst y = now (snd y - 1) \<and> cur < fst y \<and>
        (\<forall>j. n \<le> j \<and> j < snd y - 1 \<longrightarrow> now j \<le> cur)"
  have "?P now n cur (t, n')"
  proof (rule waitNextMillis.raw_induct [where P = ?P, OF _ assms])
    fix w :: "(nat \<Rightarrow> int) \<Rightarrow> nat \<Rightarrow> int \<Rightarrow> (int \<times> nat) option"
    fix now n cur y
    assume ih: "\<And>now n cur y. w now n cur = Some y \<Longrightarrow> ?P now n cur y"
      and step: "(let timestamp = now n in
                  if timestamp \<le> cur then w now (Suc n) cur else Some (timestamp, Suc n)) = Some y"
    show "?P now n cur y"
    proof (cases "now n \<le> cur")
      case True
      with step have "w now (Suc n) cur = Some y" by simp
      then have ih': "?P now (Suc n) cur y" by (rule ih)
      have "now j \<le> cur" if "n \<le> j \<and> j < snd y - 1" for j
      proof (cases "j = n")
        case True
        with \<open>now n \<le> cur\<close> show ?thesis by simp
      next
        case False
        with that have "Suc n \<le> j \<and> j < snd y - 1" by simp
        with ih' show ?thesis by blast
      qed
      with ih' show ?thesis by simp
    next
      case False
      with step have "y = (now n, Suc n)" by simp
      with False show ?thesis by simp
    qed
  qed
  then show ?thesis by simp
qed

section \<open>The paths through generate\<close>

lemma generate_regress:
  assumes "now n < lastTimestamp g"
  shows "generate now n g = Some (Inl ClockRegression, g, Suc n)"
  using assms by (simp add: generate_def)

lemma generate_no_wait:
  assumes "lastTimestamp g \<le> now n"
    and "now n = lastTimestamp g \<longrightarrow> (sequence g + 1) AND MAX_SEQUENCE \<noteq> 0"
  shows "generate now n g =
     (let g' = g\<lparr>lastTimestamp := now n,
                    sequence := (if now n = lastTimestamp g
                                 then (sequence g + 1) AND MAX_SEQUENCE else 0)\<rparr>
      in Some (if now n - CUSTOM_EPOCH > MAX_TIMESTAMP then Inl TimestampOverflow
               else Inr (backendId (now n - CUSTOM_EPOCH) (machineId g) (sequence g')),
               g', Suc n))"
  using assms by (simp add: generate_def Let_def)

lemma generate_wait:
  assumes "now n = lastTimestamp g" "(sequence g + 1) AND MAX_SEQUENCE = 0"
    and "waitNextMillis now (Suc n) (now n) = Some (t, n')"
  shows "generate now n g =
     (let g' = g\<lparr>lastTimestamp := t, sequence := 0\<rparr>
      in Some (if t - CUSTOM_EPOCH > MAX_TIMESTAMP then Inl TimestampOverflow
               else Inr (backendId (t - CUSTOM_EPOCH) (machineId g) 0),
               g', n'))"
  using assms by (simp add: generate_def Let_def)

lemma generate_wait_forever:
  assumes "now n = lastTimestamp g" "(sequence g + 1) AND MAX_SEQUENCE = 0"
    and "waitNextMillis now (Suc n) (now n) = None"
  shows "generate now n g = None"
  using assms by (simp add: generate_def Let_def)

lemma generate_Some:
  assumes "generate now n g = Some (r, g', n')"
  shows "(now n < lastTimestamp g \<and> r = Inl ClockRegression \<and> g' = g \<and> n' = Suc n) \<or>
         (lastTimestamp g \<le> now n \<and> now n \<le> lastTimestamp g' \<and> n < n' \<and>
          lastTimestamp g' = now (n' - 1) \<and>
          machineId g' = machineId g \<and>
          sequence g' = (if now n = lastTimestamp g
                         then (sequence g + 1) AND MAX_SEQUENCE else 0) \<and>
          r = (if lastTimestamp g' - CUSTOM_EPOCH > MAX_TIMESTAMP then Inl TimestampOverflow
               else Inr (backendId (lastTimestamp g' - CUSTOM_EPOCH) (machineId g) (sequence g'))))"
proof (cases "now n < lastTimestamp g")
  case True
  with assms show ?thesis by (simp add: generate_regress)
next
  case False
  then have le: "lastTimestamp g \<le> now n" by simp
  show ?thesis
  proof (cases "now n = lastTimestamp g \<and> (sequence g + 1) AND MAX_SEQUENCE = 0")
    case wait: True
    show ?thesis
    proof (cases "waitNextMillis now (Suc n) (now n)")
      case None
      with wait assms show ?thesis by (simp add: generate_wait_forever)
    next
      case (Some y)
      obtain t k where y: "y = (t, k)" by (cases y)
      from Some y have w: "waitNextMillis now (Suc n) (now n) = Some (t, k)" by simp
      from waitNextMillis_Some [OF w] have "Suc n < k" "t = now (k - 1)" "now n < t" by simp_all
      moreover from assms wait w have "r = (if t - CUSTOM_EPOCH > MAX_TIMESTAMP then Inl TimestampOverflow
               else Inr (backendId (t - CUSTOM_EPOCH) (machineId g) 0))"
          "g' = g\<lparr>lastTimestamp := t, sequence := 0\<rparr>" "n' = k"
        by (simp_all add: generate_wait Let_def)
      ultimately show ?thesis using wait le by simp
    qed
  next
    case False
    then have nw: "now n = lastTimestamp g \<longrightarrow> (sequence g + 1) AND MAX_SEQUENCE \<noteq> 0" by simp
    from assms show ?thesis
      unfolding generate_no_wait [where g = g and now = now and n = n, OF le nw] Let_def using le by auto
  qed
qed


lemma generate_not_regress:
  assumes "generate now n g = Some (r, g', n')" "r \<noteq> Inl ClockRegression"
  shows "lastTimestamp g \<le> now n" and "now n \<le> lastTimestamp g'" and "n < n'"
    and "lastTimestamp g' = now (n' - 1)" and "machineId g' = machineId g"
    and "sequence g' = (if now n = lastTimestamp g
                        then (sequence g + 1) AND MAX_SEQUENCE else 0)"
    and "r = (if lastTimestamp g' - CUSTOM_EPOCH > MAX_TIMESTAMP then Inl TimestampOverflow
              else Inr (backendId (lastTimestamp g' - CUSTOM_EPOCH) (machineId g) (sequence g')))"
  using generate_Some [OF assms(1)] assms(2) by blast+

lemma generate_Inr:
  assumes "generate now n g = Some (Inr ident, g', n')"
  shows "0 \<le> sequence g'" and "sequence g' \<le> MAX_SEQUENCE"
    and "machineId g' = machineId g"
    and "lastTimestamp g' - CUSTOM_EPOCH \<le> MAX_TIMESTAMP"
    and "ident = backendId (lastTimestamp g' - CUSTOM_EPOCH) (machineId g) (sequence g')"
proof -
  have nr: "Inr ident \<noteq> Inl ClockRegression" by simp
  note facts = generate_not_regress [OF assms nr]
  note s = facts(6) and r = facts(7)
  show "machineId g' = machineId g" by (rule facts(5))
  have "0 \<le> MAX_SEQUENCE" by (simp add: maxima_eval)
  with s show "0 \<le> sequence g'" and "sequence g' \<le> MAX_SEQUENCE"
    by (simp_all add: and_MAX_range)
  from r show "lastTimestamp g' - CUSTOM_EPOCH \<le> MAX_TIMESTAMP"
    and "ident = backendId (lastTimestamp g' - CUSTOM_EPOCH) (machineId g) (sequence g')"
    by (simp_all split: if_splits)
qed

section \<open>What the validator computes\<close>

lemma extract_timestamp:
  "timestamp (extractIdComponents ident) =
     (drop_bit TIMESTAMP_SHIFT ident AND MAX_TIMESTAMP) + CUSTOM_EPOCH"
  by (simp add: extractIdComponents_def Let_def)

lemma isValidSnowflakeId_eq:
  "isValidSnowflakeId now ident \<longleftrightarrow>
     (drop_bit TIMESTAMP_SHIFT ident AND MAX_TIMESTAMP) + CUSTOM_EPOCH \<le> now"
proof -
  have flag: "drop_bit FLAG_SHIFT ident AND 1 = 0 \<or> drop_bit FLAG_SHIFT ident AND 1 = 1"
    by (rule and_one_cases)
  have r: "\<not> (ident AND MAX_RANDOMNESS < 0 \<or> ident AND MAX_RANDOMNESS > MAX_RANDOMNESS)"
    using and_MAX_range(7,8) [of ident] by linarith
  have m: "\<not> (drop_bit MACHINE_ID_SHIFT ident AND MAX_MACHINE_ID < 0 \<or>
              drop_bit MACHINE_ID_SHIFT ident AND MAX_MACHINE_ID > MAX_MACHINE_ID \<or>
              ident AND MAX_SEQUENCE < 0 \<or> ident AND MAX_SEQUENCE > MAX_SEQUENCE)"
    using and_MAX_range(3,4) [of "drop_bit MACHINE_ID_SHIFT ident"] and_MAX_range(5,6) [of ident]
    by linarith
  show ?thesis
    unfolding isValidSnowflakeId_def Let_def using flag r m by auto
qed

section \<open>Decoding an assembled id\<close>

lemma extract_backend:
  assumes "0 \<le> a" "a \<le> MAX_TIMESTAMP" "0 \<le> m" "m \<le> MAX_MACHINE_ID"
    and "0 \<le> s" "s \<le> MAX_SEQUENCE"
  shows "extractIdComponents (backendId a m s) = Backend (a + CUSTOM_EPOCH) m s"
proof -
  have "drop_bit TIMESTAMP_SHIFT (backendId a m s) = a"
    using assms(5,6,3,4) by (rule backend_timestamp_bits)
  moreover have "a AND MAX_TIMESTAMP = a"
    using assms(1,2) by (rule timestamp_mask_id)
  moreover have "drop_bit FLAG_SHIFT (backendId a m s) AND 1 = 1"
    using assms(5,6,3,4) by (rule backend_flag_bit)
  moreover have "drop_bit MACHINE_ID_SHIFT (backendId a m s) AND MAX_MACHINE_ID = m"
    using assms(5,6,3,4) by (rule backend_machineId_bits)
  moreover have "backendId a m s AND MAX_SEQUENCE = s"
    using assms(5,6) by (rule backend_sequence_bits)
  ultimately show ?thesis
    unfolding extractIdComponents_def Let_def by (simp only: one_neq_zero if_False)
qed

lemma extract_frontend:
  assumes "0 \<le> a" "a \<le> MAX_TIMESTAMP" "0 \<le> r" "r \<le> MAX_RANDOMNESS"
  shows "extractIdComponents (push_bit TIMESTAMP_SHIFT a OR push_bit FLAG_SHIFT 0 OR r) =
           Frontend (a + CUSTOM_EPOCH) r"
proof -
  let ?i = "push_bit TIMESTAMP_SHIFT a OR push_bit FLAG_SHIFT 0 OR r"
  have "drop_bit TIMESTAMP_SHIFT ?i = a"
    using assms(3,4) by (rule frontend_timestamp_bits)
  moreover have "a AND MAX_TIMESTAMP = a"
    using assms(1,2) by (rule timestamp_mask_id)
  moreover have "drop_bit FLAG_SHIFT ?i AND 1 = 0"
    using assms(3,4) by (rule frontend_flag_bit)
  moreover have "?i AND MAX_RANDOMNESS = r"
    using assms(3,4) by (rule frontend_randomness_bits)
  ultimately show ?thesis
    unfolding extractIdComponents_def Let_def by (simp only: simp_thms if_True)
qed

lemma sequence_succ:
  assumes "0 \<le> s" "s < MAX_SEQUENCE"
  shows "(s + 1) AND MAX_SEQUENCE = s + 1"
  using assms unfolding and_MAX by (simp add: maxima_eval take_bit_int_eq_self)

lemma sequence_wrap: "(MAX_SEQUENCE + 1) AND MAX_SEQUENCE = 0"
  unfolding and_MAX by (simp add: maxima_eval)

section \<open>Construction\<close>

text \<open>
  C5. Constructing a generator succeeds for every machine id in [0, 1023], giving a
  generator with that machine id and both counters at 0, and fails with
  \<open>InvalidMachineId\<close> for every machine id outside that range.
\<close>

theorem SnowflakeGenerator_construct:
  "(0 \<le> mid \<and> mid \<le> 1023 \<longrightarrow>
      SnowflakeGenerator mid = Inr \<lparr>machineId = mid, lastTimestamp = 0, sequence = 0\<rparr>) \<and>
   (mid < 0 \<or> 1023 < mid \<longrightarrow> SnowflakeGenerator mid = Inl InvalidMachineId)"
  by (auto simp add: SnowflakeGenerator_def maxima_eval)

theorem SnowflakeGenerator_construct_witness:
  "SnowflakeGenerator 1023 = Inr \<lparr>machineId = 1023, lastTimestamp = 0, sequence = 0\<rparr> \<and>
   SnowflakeGenerator 0 = Inr \<lparr>machineId = 0, lastTimestamp = 0, sequence = 0\<rparr> \<and>
   SnowflakeGenerator 1024 = Inl InvalidMachineId \<and>
   SnowflakeGenerator (- 1) = Inl InvalidMachineId"
  using SnowflakeGenerator_construct [of 1023] SnowflakeGenerator_construct [of 0]
    SnowflakeGenerator_construct [of 1024] SnowflakeGenerator_construct [of "- 1"]
  by simp

section \<open>Clock regression\<close>

text \<open>
  C3. Whatever the state of the generator, when the time source returns a millisecond
  strictly before \<open>lastTimestamp\<close>, \<^verbatim>\<open>generate\<close> fails with \<open>ClockRegression\<close> after that
  one reading, and the generator it leaves is the one it found: \<open>lastTimestamp\<close>,
  \<open>sequence\<close> and \<open>machineId\<close> are untouched.
\<close>

theorem generate_clock_regression:
  assumes "now n < lastTimestamp g"
  shows "generate now n g = Some (Inl ClockRegression, g, Suc n)"
  using assms by (rule generate_regress)

theorem generate_clock_regression_witness:
  "(\<lambda>i::nat. 1700000000000::int) 0 <
     lastTimestamp \<lparr>machineId = 1, lastTimestamp = 1700000000001, sequence = 7\<rparr> \<and>
   generate (\<lambda>i. 1700000000000) 0
     \<lparr>machineId = 1, lastTimestamp = 1700000000001, sequence = 7\<rparr> =
   Some (Inl ClockRegression,
     \<lparr>machineId = 1, lastTimestamp = 1700000000001, sequence = 7\<rparr>, Suc 0)"
  using generate_clock_regression [of "\<lambda>i. 1700000000000" 0
      "\<lparr>machineId = 1, lastTimestamp = 1700000000001, sequence = 7\<rparr>"]
  by simp

section \<open>Timestamp overflow\<close>

text \<open>
  C9. When \<^verbatim>\<open>generate\<close> fails with \<open>TimestampOverflow\<close>, the state has already been
  written: \<open>lastTimestamp\<close> is the last reading taken from the time source (the one that
  overflows), \<open>sequence\<close> has been incremented modulo 4096 (same millisecond) or reset
  to 0 (later millisecond), and the generator differs from the one before the call.
\<close>

theorem overflow_mutates_state:
  assumes "generate now n g = Some (Inl TimestampOverflow, g', n')"
  shows "lastTimestamp g' = now (n' - 1) \<and> n < n' \<and>
         MAX_TIMESTAMP < lastTimestamp g' - CUSTOM_EPOCH \<and>
         sequence g' = (if now n = lastTimestamp g then (sequence g + 1) AND MAX_SEQUENCE else 0) \<and>
         machineId g' = machineId g \<and> g' \<noteq> g"
proof -
  have nr: "Inl TimestampOverflow \<noteq> Inl ClockRegression" by simp
  note facts = generate_not_regress [OF assms nr]
  note le = facts(1,2) and n' = facts(3,4) and m = facts(5) and s = facts(6) and r = facts(7)
  from r have over: "MAX_TIMESTAMP < lastTimestamp g' - CUSTOM_EPOCH"
    by (simp split: if_splits)
  have "g' \<noteq> g"
  proof (cases "now n = lastTimestamp g")
    case True
    with s have "sequence g' \<noteq> sequence g"
      by (simp add: and_MAX_SEQUENCE take_bit_12_succ_neq)
    then show ?thesis by auto
  next
    case False
    with le have "lastTimestamp g' \<noteq> lastTimestamp g" by simp
    then show ?thesis by auto
  qed
  with le n' m s over show ?thesis by simp
qed

theorem overflow_mutates_state_witness:
  "generate (\<lambda>i. 3808482455552) 0 \<lparr>machineId = 3, lastTimestamp = 0, sequence = 0\<rparr> =
     Some (Inl TimestampOverflow,
       \<lparr>machineId = 3, lastTimestamp = 3808482455552, sequence = 0\<rparr>, 1) \<and>
   lastTimestamp \<lparr>machineId = 3, lastTimestamp = 3808482455552, sequence = 0\<rparr> =
     (\<lambda>i::nat. 3808482455552::int) (1 - 1) \<and>
   \<lparr>machineId = 3, lastTimestamp = 3808482455552, sequence = 0\<rparr> \<noteq>
     \<lparr>machineId = 3, lastTimestamp = 0, sequence = 0\<rparr>"
proof -
  have run: "generate (\<lambda>i. 3808482455552) 0 \<lparr>machineId = 3, lastTimestamp = 0, sequence = 0\<rparr> =
     Some (Inl TimestampOverflow,
       \<lparr>machineId = 3, lastTimestamp = 3808482455552, sequence = 0\<rparr>, 1)"
    by (simp add: generate_def CUSTOM_EPOCH_def maxima_eval)
  from overflow_mutates_state [OF run] run show ?thesis by simp
qed



section \<open>Machine ids keep ids apart\<close>

text \<open>
  C8. Two generators whose machine ids lie in [0, 1023] and differ never produce the
  same id, whatever their clocks, positions and states: the ten bits above the sequence
  of every id \<^verbatim>\<open>generate\<close> returns hold the machine id of its generator. In
  particular the ids differ when timestamp and sequence coincide.
\<close>

theorem distinct_machineId_distinct_id:
  assumes "0 \<le> machineId g1" "machineId g1 \<le> MAX_MACHINE_ID"
    and "0 \<le> machineId g2" "machineId g2 \<le> MAX_MACHINE_ID"
    and "machineId g1 \<noteq> machineId g2"
    and run1: "generate now1 n1 g1 = Some (Inr id1, g1', n1')"
    and run2: "generate now2 n2 g2 = Some (Inr id2, g2', n2')"
  shows "id1 \<noteq> id2"
proof
  assume eq: "id1 = id2"
  note a = generate_Inr [OF run1] and b = generate_Inr [OF run2]
  have "drop_bit MACHINE_ID_SHIFT id1 AND MAX_MACHINE_ID = machineId g1"
    unfolding a(5) using a(1,2) assms(1,2) by (rule backend_machineId_bits)
  moreover have "drop_bit MACHINE_ID_SHIFT id2 AND MAX_MACHINE_ID = machineId g2"
    unfolding b(5) using b(1,2) assms(3,4) by (rule backend_machineId_bits)
  ultimately show False using eq assms(5) by simp
qed

theorem distinct_machineId_distinct_id_witness:
  "generate (\<lambda>i. 1700000000000) 0 \<lparr>machineId = 1, lastTimestamp = 0, sequence = 0\<rparr> =
     Some (Inr 759511279210598400,
       \<lparr>machineId = 1, lastTimestamp = 1700000000000, sequence = 0\<rparr>, 1) \<and>
   generate (\<lambda>i. 1700000000000) 0 \<lparr>machineId = 2, lastTimestamp = 0, sequence = 0\<rparr> =
     Some (Inr 759511279210602496,
       \<lparr>machineId = 2, lastTimestamp = 1700000000000, sequence = 0\<rparr>, 1) \<and>
   (759511279210598400 :: int) \<noteq> 759511279210602496"
proof -
  have run1: "generate (\<lambda>i. 1700000000000) 0
      \<lparr>machineId = 1, lastTimestamp = 0, sequence = 0\<rparr> =
     Some (Inr 759511279210598400,
       \<lparr>machineId = 1, lastTimestamp = 1700000000000, sequence = 0\<rparr>, 1)"
    by (simp add: generate_def CUSTOM_EPOCH_def maxima_eval shifts_eval)
  have run2: "generate (\<lambda>i. 1700000000000) 0
      \<lparr>machineId = 2, lastTimestamp = 0, sequence = 0\<rparr> =
     Some (Inr 759511279210602496,
       \<lparr>machineId = 2, lastTimestamp = 1700000000000, sequence = 0\<rparr>, 1)"
    by (simp add: generate_def CUSTOM_EPOCH_def maxima_eval shifts_eval)
  have "(759511279210598400 :: int) \<noteq> 759511279210602496"
    by (rule distinct_machineId_distinct_id [OF _ _ _ _ _ run1 run2])
      (simp_all add: maxima_eval)
  with run1 run2 show ?thesis by simp
qed

section \<open>Validation\<close>

text \<open>
  C7. \<^verbatim>\<open>isValidSnowflakeId\<close> is a function of the clock reading and the id alone, defined
  on every integer (so on every 64-bit value) and returning a boolean; it returns false
  for every id whose decoded timestamp, the 41-bit field plus the epoch, is strictly
  after the current time.
\<close>

theorem isValid_rejects_future:
  assumes "now < timestamp (extractIdComponents ident)"
  shows "isValidSnowflakeId now ident = False"
  using assms by (simp add: isValidSnowflakeId_eq extract_timestamp)


theorem isValid_rejects_future_witness:
  "1699999999999 < timestamp (extractIdComponents 759511279210614785) \<and>
   isValidSnowflakeId 1699999999999 759511279210614785 = False"
proof -
  have future: "1699999999999 < timestamp (extractIdComponents 759511279210614785)"
    by (simp add: extractIdComponents_def CUSTOM_EPOCH_def maxima_eval shifts_eval)
  from isValid_rejects_future [OF future] future show ?thesis by simp
qed

text \<open>
  C10. For every id, \<^verbatim>\<open>isValidSnowflakeId\<close> holds exactly when the decoded timestamp is
  not strictly after the current time: the checks on the flag, the randomness, the
  machine id and the sequence never fail, each value being masked to its own width.
\<close>

theorem isValid_iff_not_future:
  "isValidSnowflakeId now ident \<longleftrightarrow> \<not> now < timestamp (extractIdComponents ident)"
  by (simp add: isValidSnowflakeId_eq extract_timestamp not_less)

theorem isValid_iff_not_future_witness:
  "isValidSnowflakeId 1700000000000 759511279210614785 \<and>
   \<not> 1700000000000 < timestamp (extractIdComponents 759511279210614785) \<and>
   \<not> isValidSnowflakeId 1699999999999 759511279210614785"
proof -
  have "extractIdComponents 759511279210614785 = Backend 1700000000000 5 1"
    by (simp add: extractIdComponents_def CUSTOM_EPOCH_def maxima_eval shifts_eval)
  then show ?thesis
    using isValid_iff_not_future [of 1700000000000 759511279210614785]
      isValid_iff_not_future [of 1699999999999 759511279210614785]
    by simp
qed

section \<open>Sequencing within one millisecond\<close>

text \<open>
  C1 (amended). Let a first call of \<^verbatim>\<open>generate\<close> on a generator whose machine id lies in
  [0, 1023] return \<open>id1\<close>, and let the time source show \<open>lastTimestamp\<close> again at the
  next call. The sequence left by the first call lies in [0, 4095] and is the low 12
  bits of \<open>id1\<close>. If it is below 4095, the second call returns after one reading an id
  whose low 12 bits are one more, so strictly greater, with the same 41-bit timestamp
  field and the same machine id field. If it is 4095, the second call reads the clock
  up to the first reading \<open>now k\<close> strictly after that millisecond and, unless that
  reading overflows 41 bits, returns an id whose sequence field is 0; if moreover
  \<open>now k\<close> is not before the epoch, the 41-bit timestamp field of that id is
  \<open>now k - CUSTOM_EPOCH\<close> and the id decodes to the timestamp \<open>now k\<close>.
\<close>

theorem generate_twice_same_millisecond:
  assumes mid: "0 \<le> machineId g0" "machineId g0 \<le> MAX_MACHINE_ID"
    and first: "generate now n g0 = Some (Inr id1, g1, n1)"
    and same: "now n1 = lastTimestamp g1"
  shows "0 \<le> sequence g1 \<and> sequence g1 \<le> MAX_SEQUENCE \<and> id1 AND MAX_SEQUENCE = sequence g1 \<and>
    (sequence g1 < MAX_SEQUENCE \<longrightarrow>
       (\<exists>id2 g2. generate now n1 g1 = Some (Inr id2, g2, Suc n1) \<and>
          id2 AND MAX_SEQUENCE = (id1 AND MAX_SEQUENCE) + 1 \<and>
          id1 AND MAX_SEQUENCE < id2 AND MAX_SEQUENCE \<and>
          drop_bit TIMESTAMP_SHIFT id2 AND MAX_TIMESTAMP =
            drop_bit TIMESTAMP_SHIFT id1 AND MAX_TIMESTAMP \<and>
          drop_bit MACHINE_ID_SHIFT id2 AND MAX_MACHINE_ID =
            drop_bit MACHINE_ID_SHIFT id1 AND MAX_MACHINE_ID \<and>
          drop_bit MACHINE_ID_SHIFT id2 AND MAX_MACHINE_ID = machineId g0 \<and>
          lastTimestamp g2 = lastTimestamp g1 \<and> sequence g2 = sequence g1 + 1)) \<and>
    (sequence g1 = MAX_SEQUENCE \<and> n1 < k \<and> now n1 < now k \<and>
     (\<forall>j. n1 < j \<and> j < k \<longrightarrow> now j \<le> now n1) \<and> now k - CUSTOM_EPOCH \<le> MAX_TIMESTAMP \<longrightarrow>
       (\<exists>id2 g2. generate now n1 g1 = Some (Inr id2, g2, Suc k) \<and>
          id2 AND MAX_SEQUENCE = 0 \<and>
          (CUSTOM_EPOCH \<le> now k \<longrightarrow>
             drop_bit TIMESTAMP_SHIFT id2 AND MAX_TIMESTAMP = now k - CUSTOM_EPOCH \<and>
             extractIdComponents id2 = Backend (now k) (machineId g0) 0) \<and>
          lastTimestamp g2 = now k \<and> sequence g2 = 0))"
proof -
  note f = generate_Inr [OF first]
  let ?a = "lastTimestamp g1 - CUSTOM_EPOCH"
  let ?m = "machineId g0"
  have id1: "id1 = backendId ?a ?m (sequence g1)" by (rule f(5))
  have m1: "machineId g1 = ?m" by (rule f(3))
  have seq1: "id1 AND MAX_SEQUENCE = sequence g1"
    unfolding id1 using f(1,2) by (rule backend_sequence_bits)
  have ts1: "drop_bit TIMESTAMP_SHIFT id1 = ?a"
    unfolding id1 using f(1,2) mid by (rule backend_timestamp_bits)
  have mf1: "drop_bit MACHINE_ID_SHIFT id1 AND MAX_MACHINE_ID = ?m"
    unfolding id1 using f(1,2) mid by (rule backend_machineId_bits)
  have le: "lastTimestamp g1 \<le> now n1" using same by simp
  have max0: "0 \<le> MAX_SEQUENCE" by (simp add: maxima_eval)
  have part_a: "\<exists>id2 g2. generate now n1 g1 = Some (Inr id2, g2, Suc n1) \<and>
          id2 AND MAX_SEQUENCE = (id1 AND MAX_SEQUENCE) + 1 \<and>
          id1 AND MAX_SEQUENCE < id2 AND MAX_SEQUENCE \<and>
          drop_bit TIMESTAMP_SHIFT id2 AND MAX_TIMESTAMP =
            drop_bit TIMESTAMP_SHIFT id1 AND MAX_TIMESTAMP \<and>
          drop_bit MACHINE_ID_SHIFT id2 AND MAX_MACHINE_ID =
            drop_bit MACHINE_ID_SHIFT id1 AND MAX_MACHINE_ID \<and>
          drop_bit MACHINE_ID_SHIFT id2 AND MAX_MACHINE_ID = machineId g0 \<and>
          lastTimestamp g2 = lastTimestamp g1 \<and> sequence g2 = sequence g1 + 1"
    if lt: "sequence g1 < MAX_SEQUENCE"
  proof -
    let ?s2 = "sequence g1 + 1"
    let ?id2 = "backendId ?a ?m ?s2"
    let ?g2 = "g1\<lparr>lastTimestamp := now n1, sequence := ?s2\<rparr>"
    have succ: "(sequence g1 + 1) AND MAX_SEQUENCE = ?s2"
      using f(1) lt by (rule sequence_succ)
    have s2: "0 \<le> ?s2" "?s2 \<le> MAX_SEQUENCE" using f(1) lt by simp_all
    from s2 f(1) succ
    have nw: "now n1 = lastTimestamp g1 \<longrightarrow> (sequence g1 + 1) AND MAX_SEQUENCE \<noteq> 0"
      by simp
    have run: "generate now n1 g1 = Some (Inr ?id2, ?g2, Suc n1)"
      unfolding generate_no_wait [where g = g1 and now = now and n = n1, OF le nw]
      using same succ f(4) m1 by (simp add: Let_def)
    have seq2: "?id2 AND MAX_SEQUENCE = ?s2"
      using s2 by (rule backend_sequence_bits)
    have ts2: "drop_bit TIMESTAMP_SHIFT ?id2 = ?a"
      using s2 mid by (rule backend_timestamp_bits)
    have mf2: "drop_bit MACHINE_ID_SHIFT ?id2 AND MAX_MACHINE_ID = ?m"
      using s2 mid by (rule backend_machineId_bits)
    have "generate now n1 g1 = Some (Inr ?id2, ?g2, Suc n1) \<and>
          ?id2 AND MAX_SEQUENCE = (id1 AND MAX_SEQUENCE) + 1 \<and>
          id1 AND MAX_SEQUENCE < ?id2 AND MAX_SEQUENCE \<and>
          drop_bit TIMESTAMP_SHIFT ?id2 AND MAX_TIMESTAMP =
            drop_bit TIMESTAMP_SHIFT id1 AND MAX_TIMESTAMP \<and>
          drop_bit MACHINE_ID_SHIFT ?id2 AND MAX_MACHINE_ID =
            drop_bit MACHINE_ID_SHIFT id1 AND MAX_MACHINE_ID \<and>
          drop_bit MACHINE_ID_SHIFT ?id2 AND MAX_MACHINE_ID = machineId g0 \<and>
          lastTimestamp ?g2 = lastTimestamp g1 \<and> sequence ?g2 = sequence g1 + 1"
      unfolding seq1 seq2 ts1 ts2 mf1 mf2 using run same by simp
    then show ?thesis by blast
  qed
  have part_b: "\<exists>id2 g2. generate now n1 g1 = Some (Inr id2, g2, Suc k) \<and>
          id2 AND MAX_SEQUENCE = 0 \<and>
          (CUSTOM_EPOCH \<le> now k \<longrightarrow>
             drop_bit TIMESTAMP_SHIFT id2 AND MAX_TIMESTAMP = now k - CUSTOM_EPOCH \<and>
             extractIdComponents id2 = Backend (now k) (machineId g0) 0) \<and>
          lastTimestamp g2 = now k \<and> sequence g2 = 0"
    if h: "sequence g1 = MAX_SEQUENCE \<and> n1 < k \<and> now n1 < now k \<and>
     (\<forall>j. n1 < j \<and> j < k \<longrightarrow> now j \<le> now n1) \<and> now k - CUSTOM_EPOCH \<le> MAX_TIMESTAMP"
  proof -
    let ?b = "now k - CUSTOM_EPOCH"
    let ?id2 = "backendId ?b ?m 0"
    let ?g2 = "g1\<lparr>lastTimestamp := now k, sequence := 0\<rparr>"
    from h have wrap: "(sequence g1 + 1) AND MAX_SEQUENCE = 0"
      by (simp add: sequence_wrap)
    from h have k: "Suc n1 \<le> k" "now n1 < now k"
      "\<forall>j. Suc n1 \<le> j \<and> j < k \<longrightarrow> now j \<le> now n1" by simp_all
    then have w: "waitNextMillis now (Suc n1) (now n1) = Some (now k, Suc k)"
      by (rule waitNextMillis_first)
    from h have hi: "?b \<le> MAX_TIMESTAMP" by simp
    have run: "generate now n1 g1 = Some (Inr ?id2, ?g2, Suc k)"
      unfolding generate_wait [OF same wrap w] using hi m1 by (simp add: Let_def)
    have z: "(0::int) \<le> 0" "0 \<le> MAX_SEQUENCE" using max0 by simp_all
    have seq2: "?id2 AND MAX_SEQUENCE = 0"
      using z by (rule backend_sequence_bits)
    have ts2: "drop_bit TIMESTAMP_SHIFT ?id2 = ?b"
      using z mid by (rule backend_timestamp_bits)
    have msk: "?b AND MAX_TIMESTAMP = ?b" if "CUSTOM_EPOCH \<le> now k"
    proof -
      from that have "0 \<le> ?b" by simp
      then show ?thesis using hi by (rule timestamp_mask_id)
    qed
    have ex: "extractIdComponents ?id2 = Backend (now k) ?m 0" if "CUSTOM_EPOCH \<le> now k"
    proof -
      from that have "0 \<le> ?b" by simp
      then have "extractIdComponents ?id2 = Backend (?b + CUSTOM_EPOCH) ?m 0"
        using hi mid z by (rule extract_backend)
      then show ?thesis by (simp only: diff_add_cancel)
    qed
    have "generate now n1 g1 = Some (Inr ?id2, ?g2, Suc k) \<and>
          ?id2 AND MAX_SEQUENCE = 0 \<and>
          (CUSTOM_EPOCH \<le> now k \<longrightarrow>
             drop_bit TIMESTAMP_SHIFT ?id2 AND MAX_TIMESTAMP = now k - CUSTOM_EPOCH \<and>
             extractIdComponents ?id2 = Backend (now k) (machineId g0) 0) \<and>
          lastTimestamp ?g2 = now k \<and> sequence ?g2 = 0"
      unfolding seq2 ts2 using run ex msk by simp
    then show ?thesis by blast
  qed
  from f(1,2) seq1 part_a part_b show ?thesis by blast
qed

theorem generate_twice_same_millisecond_witness:
  "generate (\<lambda>i. 1700000000000) 0
     \<lparr>machineId = 5, lastTimestamp = 1700000000000, sequence = 0\<rparr> =
     Some (Inr 759511279210614785,
       \<lparr>machineId = 5, lastTimestamp = 1700000000000, sequence = 1\<rparr>, 1) \<and>
   (\<exists>id2 g2.
      generate (\<lambda>i. 1700000000000) 1
        \<lparr>machineId = 5, lastTimestamp = 1700000000000, sequence = 1\<rparr> =
        Some (Inr id2, g2, Suc 1) \<and>
      id2 AND MAX_SEQUENCE = 2 \<and> lastTimestamp g2 = 1700000000000 \<and> sequence g2 = 2) \<and>
   generate (\<lambda>i. if i < 3 then 1700000000000 else 1700000000001) 0
     \<lparr>machineId = 5, lastTimestamp = 1700000000000, sequence = 4094\<rparr> =
     Some (Inr 759511279210618879,
       \<lparr>machineId = 5, lastTimestamp = 1700000000000, sequence = 4095\<rparr>, 1) \<and>
   (\<exists>id2 g2.
      generate (\<lambda>i. if i < 3 then 1700000000000 else 1700000000001) 1
        \<lparr>machineId = 5, lastTimestamp = 1700000000000, sequence = 4095\<rparr> =
        Some (Inr id2, g2, Suc 3) \<and>
      id2 AND MAX_SEQUENCE = 0 \<and>
      extractIdComponents id2 = Backend 1700000000001 5 0 \<and>
      lastTimestamp g2 = 1700000000001 \<and> sequence g2 = 0)"
proof -
  have first_a: "generate (\<lambda>i. 1700000000000) 0
     \<lparr>machineId = 5, lastTimestamp = 1700000000000, sequence = 0\<rparr> =
     Some (Inr 759511279210614785,
       \<lparr>machineId = 5, lastTimestamp = 1700000000000, sequence = 1\<rparr>, 1)"
    by (simp add: generate_def CUSTOM_EPOCH_def maxima_eval shifts_eval)
  have first_b: "generate (\<lambda>i. if i < 3 then 1700000000000 else 1700000000001) 0
     \<lparr>machineId = 5, lastTimestamp = 1700000000000, sequence = 4094\<rparr> =
     Some (Inr 759511279210618879,
       \<lparr>machineId = 5, lastTimestamp = 1700000000000, sequence = 4095\<rparr>, 1)"
    by (simp add: generate_def CUSTOM_EPOCH_def maxima_eval shifts_eval)
  have a: "\<exists>id2 g2.
      generate (\<lambda>i. 1700000000000) 1
        \<lparr>machineId = 5, lastTimestamp = 1700000000000, sequence = 1\<rparr> =
        Some (Inr id2, g2, Suc 1) \<and>
      id2 AND MAX_SEQUENCE = 2 \<and> lastTimestamp g2 = 1700000000000 \<and> sequence g2 = 2"
    using generate_twice_same_millisecond [OF _ _ first_a, of 0]
    by (auto simp add: maxima_eval)
  have b: "\<exists>id2 g2.
      generate (\<lambda>i. if i < 3 then 1700000000000 else 1700000000001) 1
        \<lparr>machineId = 5, lastTimestamp = 1700000000000, sequence = 4095\<rparr> =
        Some (Inr id2, g2, Suc 3) \<and>
      id2 AND MAX_SEQUENCE = 0 \<and>
      extractIdComponents id2 = Backend 1700000000001 5 0 \<and>
      lastTimestamp g2 = 1700000000001 \<and> sequence g2 = 0"
    using generate_twice_same_millisecond [OF _ _ first_b, of 3]
    by (auto simp add: maxima_eval CUSTOM_EPOCH_def)
  from first_a a first_b b show ?thesis by blast
qed

text \<open>
  C1 as stated puts no lower bound on the clock. With every reading before the epoch,
  a first call leaves the sequence at 4095, the second call waits for
  1600000000001 and returns a negative id with sequence field 0 whose 41-bit timestamp
  field is 2189564055553, not 1600000000001 - 1609459200000, and which decodes to the
  timestamp 3799023255553: the reading plus \<open>2 ^ 41\<close>.
\<close>

theorem generate_rollover_pre_epoch_counterexample:
  "generate (\<lambda>i. if i < 3 then 1600000000000 else 1600000000001) 0
     \<lparr>machineId = 5, lastTimestamp = 1600000000000, sequence = 4094\<rparr> =
     Some (Inr (- 79349520789381121),
       \<lparr>machineId = 5, lastTimestamp = 1600000000000, sequence = 4095\<rparr>, 1) \<and>
   (\<lambda>i::nat. if i < 3 then 1600000000000 else 1600000000001 :: int) 1 =
     lastTimestamp \<lparr>machineId = 5, lastTimestamp = 1600000000000, sequence = 4095\<rparr> \<and>
   generate (\<lambda>i. if i < 3 then 1600000000000 else 1600000000001) 1
     \<lparr>machineId = 5, lastTimestamp = 1600000000000, sequence = 4095\<rparr> =
     Some (Inr (- 79349520780996608),
       \<lparr>machineId = 5, lastTimestamp = 1600000000001, sequence = 0\<rparr>, 4) \<and>
   (- 79349520780996608) AND MAX_SEQUENCE = 0 \<and>
   drop_bit TIMESTAMP_SHIFT (- 79349520780996608) AND MAX_TIMESTAMP = 2189564055553 \<and>
   drop_bit TIMESTAMP_SHIFT (- 79349520780996608) AND MAX_TIMESTAMP \<noteq>
     1600000000001 - CUSTOM_EPOCH \<and>
   extractIdComponents (- 79349520780996608) = Backend 3799023255553 5 0 \<and>
   timestamp (extractIdComponents (- 79349520780996608)) \<noteq> 1600000000001"
proof -
  let ?now = "\<lambda>i::nat. if i < 3 then 1600000000000 else 1600000000001 :: int"
  let ?g1 = "\<lparr>machineId = 5, lastTimestamp = 1600000000000, sequence = 4095\<rparr>"
  have first: "generate ?now 0
     \<lparr>machineId = 5, lastTimestamp = 1600000000000, sequence = 4094\<rparr> =
     Some (Inr (- 79349520789381121), ?g1, 1)"
    by (simp add: generate_def CUSTOM_EPOCH_def maxima_eval shifts_eval)
  have w: "waitNextMillis ?now (Suc 1) (?now 1) = Some (?now 3, Suc 3)"
    by (rule waitNextMillis_first) simp_all
  have same: "?now 1 = lastTimestamp ?g1" by simp
  have wrap: "(sequence ?g1 + 1) AND MAX_SEQUENCE = 0" by (simp add: maxima_eval)
  have second: "generate ?now 1 ?g1 =
     Some (Inr (- 79349520780996608),
       \<lparr>machineId = 5, lastTimestamp = 1600000000001, sequence = 0\<rparr>, 4)"
    unfolding generate_wait [OF same wrap w]
    by (simp add: CUSTOM_EPOCH_def maxima_eval shifts_eval)
  have fields: "(- 79349520780996608) AND MAX_SEQUENCE = 0"
    "drop_bit TIMESTAMP_SHIFT (- 79349520780996608) AND MAX_TIMESTAMP = 2189564055553"
    by (simp_all add: maxima_eval shifts_eval)
  have dec: "extractIdComponents (- 79349520780996608) = Backend 3799023255553 5 0"
    by (simp add: extractIdComponents_def CUSTOM_EPOCH_def maxima_eval shifts_eval)
  from first second fields dec show ?thesis by (simp add: CUSTOM_EPOCH_def)
qed

section \<open>Round trips\<close>

text \<open>
  C2 (amended). For a generator whose machine id lies in [0, 1023], let \<open>now k\<close> be the
  reading the call adopts: the first one, \<open>now n\<close>, which must not be before
  \<open>lastTimestamp\<close>, or, when the sequence is exhausted in that millisecond, the first
  reading strictly after it. If \<open>now k\<close> is not before the epoch and at most \<open>2 ^ 41 - 1\<close>
  after it, \<^verbatim>\<open>generate\<close> returns an id that decodes to source backend, the generator's
  machine id, the sequence the generator now holds, and the timestamp \<open>now k\<close>.
\<close>

theorem generate_decode_roundtrip:
  assumes mid: "0 \<le> machineId g" "machineId g \<le> MAX_MACHINE_ID"
    and le: "lastTimestamp g \<le> now n"
    and adopt: "if now n = lastTimestamp g \<and> (sequence g + 1) AND MAX_SEQUENCE = 0
                then n < k \<and> now n < now k \<and> (\<forall>j. n < j \<and> j < k \<longrightarrow> now j \<le> now n)
                else k = n"
    and lo: "CUSTOM_EPOCH \<le> now k" and hi: "now k - CUSTOM_EPOCH \<le> MAX_TIMESTAMP"
  shows "\<exists>ident g'. generate now n g = Some (Inr ident, g', Suc k) \<and>
           machineId g' = machineId g \<and> lastTimestamp g' = now k \<and>
           sequence g' = (if now n = lastTimestamp g
                          then (sequence g + 1) AND MAX_SEQUENCE else 0) \<and>
           extractIdComponents ident = Backend (now k) (machineId g) (sequence g') \<and>
           source (extractIdComponents ident) = ''backend''"
proof -
  let ?s = "if now n = lastTimestamp g then (sequence g + 1) AND MAX_SEQUENCE else 0"
  let ?g' = "g\<lparr>lastTimestamp := now k, sequence := ?s\<rparr>"
  let ?i = "backendId (now k - CUSTOM_EPOCH) (machineId g) ?s"
  have "0 \<le> MAX_SEQUENCE" by (simp add: maxima_eval)
  then have s: "0 \<le> ?s" "?s \<le> MAX_SEQUENCE" by (simp_all add: and_MAX_range)
  from lo have "0 \<le> now k - CUSTOM_EPOCH" by simp
  then have "extractIdComponents ?i = Backend (now k - CUSTOM_EPOCH + CUSTOM_EPOCH) (machineId g) ?s"
    using hi mid s by (rule extract_backend)
  then have ex: "extractIdComponents ?i = Backend (now k) (machineId g) ?s"
    by (simp only: diff_add_cancel)
  have run: "generate now n g = Some (Inr ?i, ?g', Suc k)"
  proof (cases "now n = lastTimestamp g \<and> (sequence g + 1) AND MAX_SEQUENCE = 0")
    case True
    with adopt have k: "Suc n \<le> k" "now n < now k"
      "\<forall>j. Suc n \<le> j \<and> j < k \<longrightarrow> now j \<le> now n" by simp_all
    then have "waitNextMillis now (Suc n) (now n) = Some (now k, Suc k)"
      by (rule waitNextMillis_first)
    with True hi show ?thesis by (simp add: generate_wait)
  next
    case False
    with adopt have "k = n" by simp
    moreover from False
    have "now n = lastTimestamp g \<longrightarrow> (sequence g + 1) AND MAX_SEQUENCE \<noteq> 0" by simp
    ultimately show ?thesis using le hi by (simp add: generate_no_wait)
  qed
  have "generate now n g = Some (Inr ?i, ?g', Suc k) \<and>
        machineId ?g' = machineId g \<and> lastTimestamp ?g' = now k \<and> sequence ?g' = ?s \<and>
        extractIdComponents ?i = Backend (now k) (machineId g) (sequence ?g') \<and>
        source (extractIdComponents ?i) = ''backend''"
    using run ex by simp
  then show ?thesis by blast
qed

theorem generate_decode_roundtrip_witness:
  "(\<exists>ident g'.
      generate (\<lambda>i. 1700000000000) 0
        \<lparr>machineId = 5, lastTimestamp = 1700000000000, sequence = 0\<rparr> =
        Some (Inr ident, g', Suc 0) \<and>
      extractIdComponents ident = Backend 1700000000000 5 1) \<and>
   (\<exists>ident g'.
      generate (\<lambda>i. if i < 3 then 1700000000000 else 1700000000001) 1
        \<lparr>machineId = 5, lastTimestamp = 1700000000000, sequence = 4095\<rparr> =
        Some (Inr ident, g', Suc 3) \<and>
      extractIdComponents ident = Backend 1700000000001 5 0)"
proof -
  have a: "\<exists>ident g'.
      generate (\<lambda>i. 1700000000000) 0
        \<lparr>machineId = 5, lastTimestamp = 1700000000000, sequence = 0\<rparr> =
        Some (Inr ident, g', Suc 0) \<and>
      extractIdComponents ident = Backend 1700000000000 5 1"
    using generate_decode_roundtrip [of "\<lparr>machineId = 5, lastTimestamp = 1700000000000, sequence = 0\<rparr>"
        "\<lambda>i. 1700000000000" 0 0]
    by (auto simp add: maxima_eval CUSTOM_EPOCH_def)
  have b: "\<exists>ident g'.
      generate (\<lambda>i. if i < 3 then 1700000000000 else 1700000000001) 1
        \<lparr>machineId = 5, lastTimestamp = 1700000000000, sequence = 4095\<rparr> =
        Some (Inr ident, g', Suc 3) \<and>
      extractIdComponents ident = Backend 1700000000001 5 0"
    using generate_decode_roundtrip [of "\<lparr>machineId = 5, lastTimestamp = 1700000000000, sequence = 4095\<rparr>"
        "\<lambda>i. if i < 3 then 1700000000000 else 1700000000001" 1 3]
    by (auto simp add: maxima_eval CUSTOM_EPOCH_def)
  from a b show ?thesis by (rule conjI)
qed

text \<open>
  C2 as stated has no lower bound on the reading. A fresh generator whose clock shows
  1600000000000 (before the epoch) passes both of its conditions and returns a negative
  id, which decodes to the timestamp 3799023255552: the reading plus \<open>2 ^ 41\<close>.
\<close>

theorem generate_decode_pre_epoch_counterexample:
  "SnowflakeGenerator 0 = Inr \<lparr>machineId = 0, lastTimestamp = 0, sequence = 0\<rparr> \<and>
   lastTimestamp \<lparr>machineId = 0, lastTimestamp = 0, sequence = 0\<rparr> \<le> 1600000000000 \<and>
   1600000000000 - CUSTOM_EPOCH \<le> MAX_TIMESTAMP \<and>
   generate (\<lambda>i. 1600000000000) 0 \<lparr>machineId = 0, lastTimestamp = 0, sequence = 0\<rparr> =
     Some (Inr (- 79349520789405696),
       \<lparr>machineId = 0, lastTimestamp = 1600000000000, sequence = 0\<rparr>, 1) \<and>
   extractIdComponents (- 79349520789405696) = Backend 3799023255552 0 0 \<and>
   timestamp (extractIdComponents (- 79349520789405696)) \<noteq> 1600000000000"
proof -
  have "SnowflakeGenerator 0 = Inr \<lparr>machineId = 0, lastTimestamp = 0, sequence = 0\<rparr>"
    by (simp add: SnowflakeGenerator_def maxima_eval)
  moreover have "1600000000000 - CUSTOM_EPOCH \<le> MAX_TIMESTAMP"
    by (simp add: CUSTOM_EPOCH_def maxima_eval)
  moreover have "generate (\<lambda>i. 1600000000000) 0
      \<lparr>machineId = 0, lastTimestamp = 0, sequence = 0\<rparr> =
     Some (Inr (- 79349520789405696),
       \<lparr>machineId = 0, lastTimestamp = 1600000000000, sequence = 0\<rparr>, 1)"
    by (simp add: generate_def CUSTOM_EPOCH_def maxima_eval shifts_eval)
  moreover have "extractIdComponents (- 79349520789405696) = Backend 3799023255552 0 0"
    by (simp add: extractIdComponents_def CUSTOM_EPOCH_def maxima_eval shifts_eval)
  ultimately show ?thesis by simp
qed

text \<open>
  C6. For every reading \<open>t\<close> from the epoch up to \<open>2 ^ 41 - 1\<close> after it and every four
  random bytes, \<^verbatim>\<open>generateFrontendSnowflakeId\<close> returns an id that decodes to source
  frontend, the timestamp \<open>t\<close>, and a randomness in [0, \<open>2 ^ 22 - 1\<close>] which is the low
  22 bits of the big-endian reading of the bytes, an unsigned 32-bit value.
\<close>

theorem frontend_decode_roundtrip:
  assumes "CUSTOM_EPOCH \<le> t" "t - CUSTOM_EPOCH \<le> MAX_TIMESTAMP"
  shows "\<exists>ident. generateFrontendSnowflakeId t bs = Inr ident \<and>
           extractIdComponents ident = Frontend t (getUint32 bs mod 2 ^ 22) \<and>
           source (extractIdComponents ident) = ''frontend'' \<and>
           0 \<le> getUint32 bs mod 2 ^ 22 \<and> getUint32 bs mod 2 ^ 22 \<le> 2 ^ 22 - 1 \<and>
           0 \<le> getUint32 bs \<and> getUint32 bs < 2 ^ 32"
proof -
  let ?r = "getUint32 bs AND MAX_RANDOMNESS"
  let ?i = "push_bit TIMESTAMP_SHIFT (t - CUSTOM_EPOCH) OR push_bit FLAG_SHIFT 0 OR ?r"
  have r: "?r = getUint32 bs mod 2 ^ 22"
    unfolding and_MAX by (rule take_bit_eq_mod)
  have range: "0 \<le> ?r" "?r \<le> MAX_RANDOMNESS" by (rule and_MAX_range)+
  from assms have gen: "generateFrontendSnowflakeId t bs = Inr ?i"
    by (simp add: generateFrontendSnowflakeId_def Let_def)
  from assms(1) have "0 \<le> t - CUSTOM_EPOCH" by simp
  then have "extractIdComponents ?i = Frontend (t - CUSTOM_EPOCH + CUSTOM_EPOCH) ?r"
    using assms(2) range by (rule extract_frontend)
  then have ex: "extractIdComponents ?i = Frontend t (getUint32 bs mod 2 ^ 22)"
    by (simp only: r diff_add_cancel)
  have "0 \<le> getUint32 bs mod 2 ^ 22 \<and> getUint32 bs mod 2 ^ 22 \<le> 2 ^ 22 - 1"
    using range unfolding r by (simp add: maxima_eval)
  with gen ex getUint32_range [of bs] show ?thesis by simp
qed

theorem frontend_decode_roundtrip_witness:
  "CUSTOM_EPOCH \<le> 1700000000000 \<and> 1700000000000 - CUSTOM_EPOCH \<le> MAX_TIMESTAMP \<and>
   generateFrontendSnowflakeId 1700000000000 (0x12, 0xF4, 0x56, 0x78) = Inr 759511279209830008 \<and>
   extractIdComponents 759511279209830008 = Frontend 1700000000000 3430008 \<and>
   getUint32 (0x12, 0xF4, 0x56, 0x78) = 318002808"
proof -
  have lo: "CUSTOM_EPOCH \<le> 1700000000000" by (simp add: CUSTOM_EPOCH_def)
  have hi: "1700000000000 - CUSTOM_EPOCH \<le> MAX_TIMESTAMP"
    by (simp add: CUSTOM_EPOCH_def maxima_eval)
  have v: "getUint32 (0x12, 0xF4, 0x56, 0x78) = 318002808" by (simp add: getUint32_def)
  have gen: "generateFrontendSnowflakeId 1700000000000 (0x12, 0xF4, 0x56, 0x78) = Inr 759511279209830008"
    by (simp add: generateFrontendSnowflakeId_def getUint32_def CUSTOM_EPOCH_def maxima_eval shifts_eval)
  from frontend_decode_roundtrip [OF lo hi, of "(0x12, 0xF4, 0x56, 0x78)"] gen v lo hi
  show ?thesis by simp
qed

section \<open>The 41-bit bound\<close>




end
